theory Spec2Isabelle
  imports Main "HOL-Library.Word"
begin

unbundle bit_operations_syntax

section \<open>The GitHub upload helper of \<^verbatim>\<open>app.py\<close>\<close>

text \<open>
  \<^verbatim>\<open>upload_with_real_progress\<close> reads a local file in chunks of 4096 bytes,
  base64-encodes every chunk on its own, joins the encoded chunks and sends them in one
  HTTP PUT to the GitHub contents API. The function is embedded as a pure function of
  the configuration, of the outside world (file system and network) and of its three
  arguments; it returns the trace of the effects it performed together with either the
  exception that escaped or its return value.
\<close>

subsection \<open>Bytes and base64 (\<^verbatim>\<open>base64.b64encode\<close>, RFC 4648 section 4)\<close>

type_synonym byte = "8 word"

definition b64_alphabet :: string where
  "b64_alphabet = ''ABCDEFGHIJKLMNOPQRSTUVWXYZabcdefghijklmnopqrstuvwxyz0123456789+/''"

text \<open>The character of a 6-bit value: a table lookup, the index masked to six bits.\<close>

definition b64chr :: "byte \<Rightarrow> char" where
  "b64chr v = b64_alphabet ! unat (v AND 63)"

text \<open>The 6-bit value of a character, \<open>None\<close> outside the alphabet (also for the pad).\<close>

definition b64idx :: "char \<Rightarrow> byte option" where
  "b64idx c = map_of (zip b64_alphabet (map of_nat [0..<64])) c"

text \<open>
  Three bytes give four characters; a rest of two bytes gives three characters and one
  pad, a rest of one byte two characters and two pads.
\<close>

fun b64encode :: "byte list \<Rightarrow> string" where
  "b64encode (a # b # c # rest) =
     [b64chr (drop_bit 2 a),
      b64chr (push_bit 4 (a AND 3) OR drop_bit 4 b),
      b64chr (push_bit 2 (b AND 15) OR drop_bit 6 c),
      b64chr (c AND 63)] @ b64encode rest"
| "b64encode [a, b] =
     [b64chr (drop_bit 2 a),
      b64chr (push_bit 4 (a AND 3) OR drop_bit 4 b),
      b64chr (push_bit 2 (b AND 15)),
      CHR ''='']"
| "b64encode [a] =
     [b64chr (drop_bit 2 a),
      b64chr (push_bit 4 (a AND 3)),
      CHR ''='', CHR ''='']"
| "b64encode [] = []"

text \<open>
  The decoder the payload is checked against. It reads groups of four characters. A
  group ending in pads closes the data: with \<open>strict\<close> nothing may follow it (RFC 4648
  section 3.3, and \<^verbatim>\<open>base64.b64decode(s, validate=True)\<close>); without \<open>strict\<close>
  whatever follows is ignored, which is how \<^verbatim>\<open>base64.b64decode(s)\<close> treats a
  completed pad sequence. A character outside the alphabet, or a length that is not a
  multiple of four, is an error (\<open>None\<close>).
\<close>

fun b64decode :: "bool \<Rightarrow> string \<Rightarrow> byte list option" where
  "b64decode strict (c1 # c2 # c3 # c4 # rest) =
     (if c4 = CHR ''='' then
        (if strict \<and> rest \<noteq> [] then None
         else if c3 = CHR ''='' then
           (case (b64idx c1, b64idx c2) of
              (Some s1, Some s2) \<Rightarrow> Some [push_bit 2 s1 OR drop_bit 4 s2]
            | _ \<Rightarrow> None)
         else
           (case (b64idx c1, b64idx c2, b64idx c3) of
              (Some s1, Some s2, Some s3) \<Rightarrow>
                Some [push_bit 2 s1 OR drop_bit 4 s2,
                      push_bit 4 (s2 AND 15) OR drop_bit 2 s3]
            | _ \<Rightarrow> None))
      else
        (case (b64idx c1, b64idx c2, b64idx c3, b64idx c4) of
           (Some s1, Some s2, Some s3, Some s4) \<Rightarrow>
             (case b64decode strict rest of
                None \<Rightarrow> None
              | Some bs \<Rightarrow>
                  Some (([push_bit 2 s1 OR drop_bit 4 s2,
                          push_bit 4 (s2 AND 15) OR drop_bit 2 s3,
                          push_bit 6 (s3 AND 3) OR s4]) @ bs))
         | _ \<Rightarrow> None))"
| "b64decode strict [] = Some []"
| "b64decode strict _ = None"

subsection \<open>Python values, exceptions and strings\<close>

datatype py_error =
    ValueError string
  | IndexError
  | OSError string
  | RequestException

text \<open>
  What a call hands back to its caller. A function that ends without a
  \<^verbatim>\<open>return\<close> statement returns \<^verbatim>\<open>None\<close>.
\<close>

datatype py_value =
    PyNone
  | PyBool bool
  | PyInt int
  | PyStr string

text \<open>\<^verbatim>\<open>s.split(sep)\<close> for a separator of one character.\<close>

fun py_split :: "char \<Rightarrow> string \<Rightarrow> string list" where
  "py_split sep [] = [[]]"
| "py_split sep (c # cs) =
     (if c = sep then [] # py_split sep cs
      else (case py_split sep cs of
              [] \<Rightarrow> [[c]]
            | w # ws \<Rightarrow> (c # w) # ws))"

text \<open>\<^verbatim>\<open>xs[i]\<close> for \<open>i \<ge> 0\<close>: IndexError out of range.\<close>

definition py_index :: "'a list \<Rightarrow> nat \<Rightarrow> py_error + 'a" where
  "py_index xs i = (if i < length xs then Inr (xs ! i) else Inl IndexError)"

text \<open>\<^verbatim>\<open>str(n)\<close> of an integer, as the f-string of line 53 formats the status code.\<close>

definition digit_char :: "nat \<Rightarrow> char" where
  "digit_char d = ''0123456789'' ! (d mod 10)"

fun str_nat :: "nat \<Rightarrow> string" where
  "str_nat n = (if n < 10 then [digit_char n] else str_nat (n div 10) @ [digit_char (n mod 10)])"

definition str_int :: "int \<Rightarrow> string" where
  "str_int i = (if i < 0 then CHR ''-'' # str_nat (nat (- i)) else str_nat (nat i))"

subsection \<open>Configuration, the outside world and the trace of effects\<close>

text \<open>
  Lines 7 to 9 read three strings from \<^verbatim>\<open>config.CONFIG\<close>, a module that is not part
  of the sources at hand: they are a parameter of the function.
\<close>

record config =
  GITHUB_TOKEN :: string
  BRANCH_NAME :: string
  REPO_NAME :: string

text \<open>
  A file of the local file system: the size \<^verbatim>\<open>os.path.getsize\<close> reports, whether
  \<^verbatim>\<open>open(path, "rb")\<close> succeeds, and the bytes the reads deliver.
\<close>

record file_entry =
  st_size :: nat
  readable :: bool
  content :: "byte list"

record http_request =
  url :: string
  headers :: "(string \<times> string) list"
  json :: "(string \<times> string) list"

record http_response =
  status_code :: int
  resp_text :: string

text \<open>
  The world answers a path with a file or with nothing (the file is missing), and a
  request with a response or with nothing (a failure of the transport, which
  \<^verbatim>\<open>requests.put\<close> raises as an exception).
\<close>

record world =
  fs :: "string \<Rightarrow> file_entry option"
  net :: "http_request \<Rightarrow> http_response option"

datatype event =
    Getsize string
  | Open string
  | Read nat
  | Close
  | PbarOpen nat
  | PbarUpdate nat
  | PbarClose
  | Print string
  | Put http_request

subsection \<open>The read loop (lines 31 to 36)\<close>

text \<open>
  \<open>rest\<close> is what the file object has not delivered yet, \<open>encoded_chunks\<close> the list
  the loop appends to, \<open>tr\<close> the trace so far. \<^verbatim>\<open>f.read(sz)\<close> delivers the next
  \<open>sz\<close> bytes, fewer at the end of the file and none after it; the empty chunk leaves
  the loop. The size 4096 of line 32 is passed by the caller.
\<close>

function read_loop :: "nat \<Rightarrow> byte list \<Rightarrow> string list \<Rightarrow> event list \<Rightarrow> string list \<times> event list" where
  "read_loop sz rest encoded_chunks tr =
     (let chunk = take sz rest in
      if chunk = [] then (encoded_chunks, tr @ [Read 0])
      else read_loop sz (drop sz rest)
             (encoded_chunks @ [b64encode chunk])
             (tr @ [Read (length chunk), PbarUpdate (length chunk)]))"
  by pat_completeness auto
termination
  by (relation "measure (\<lambda>(sz, rest, encoded_chunks, tr). length rest)") auto

declare read_loop.simps [simp del]
declare str_nat.simps [simp del]

subsection \<open>The upload (lines 11 to 53)\<close>

definition repo_owner :: "string \<Rightarrow> py_error + string option" where
  "repo_owner rn =
     (if CHR ''/'' \<in> set rn then map_sum id Some (py_index (py_split CHR ''/'' rn) 0)
      else Inr None)"

definition repo_name_of :: "string \<Rightarrow> py_error + string" where
  "repo_name_of rn =
     (if CHR ''/'' \<in> set rn then py_index (py_split CHR ''/'' rn) 1 else Inr rn)"

text \<open>\<^verbatim>\<open>not owner\<close>: \<^verbatim>\<open>None\<close> and the empty string are false.\<close>

definition truthy :: "string option \<Rightarrow> bool" where
  "truthy v = (case v of None \<Rightarrow> False | Some s \<Rightarrow> s \<noteq> [])"

text \<open>How an f-string renders the owner (line 18).\<close>

definition format_owner :: "string option \<Rightarrow> string" where
  "format_owner v = (case v of None \<Rightarrow> ''None'' | Some s \<Rightarrow> s)"

definition api_url :: "string \<Rightarrow> string \<Rightarrow> string \<Rightarrow> string" where
  "api_url owner repo_name github_file_path =
     ''https://api.github.com/repos/'' @ owner @ ''/'' @ repo_name @ ''/contents/'' @ github_file_path"

definition format_error :: string where
  "format_error = ''GITHUB_REPO_NAME must be in '' @ [CHR 0x27] @ ''owner/repo'' @ [CHR 0x27] @ '' format.''"

definition msg_finalizing :: string where
  "msg_finalizing = CHR 0x0A # ''Finalizing upload to GitHub (this may take a moment)...''"

text \<open>The two outcome lines; the leading symbols are written as their UTF-8 bytes.\<close>

definition msg_success :: string where
  "msg_success = [CHR 0xE2, CHR 0x9C, CHR 0x85] @ '' Upload successful!''"

definition msg_failed :: "int \<Rightarrow> string \<Rightarrow> string" where
  "msg_failed code body =
     [CHR 0xE2, CHR 0x9D, CHR 0x8C] @ '' Upload failed: '' @ str_int code @ '' - '' @ body"

definition upload_with_real_progress ::
  "config \<Rightarrow> world \<Rightarrow> string \<Rightarrow> string \<Rightarrow> string \<Rightarrow> event list \<times> (py_error + py_value)" where
  "upload_with_real_progress cfg w local_file_path github_file_path commit_message =
     (case repo_owner (REPO_NAME cfg) of
        Inl e \<Rightarrow> ([], Inl e)
      | Inr owner \<Rightarrow>
     (case repo_name_of (REPO_NAME cfg) of
        Inl e \<Rightarrow> ([], Inl e)
      | Inr repo_name \<Rightarrow>
     if \<not> truthy owner then ([], Inl (ValueError format_error))
     else
       let url = api_url (format_owner owner) repo_name github_file_path in
       (case fs w local_file_path of
          None \<Rightarrow> ([Getsize local_file_path], Inl (OSError local_file_path))
        | Some fe \<Rightarrow>
       let file_size = st_size fe;
           headers = [(''Authorization'', ''token '' @ GITHUB_TOKEN cfg),
                      (''Accept'', ''application/vnd.github.v3+json'')]
       in
       if \<not> readable fe then
         ([Getsize local_file_path, Open local_file_path], Inl (OSError local_file_path))
       else
         let (encoded_chunks, tr1) =
               read_loop 4096 (content fe) []
                 [Getsize local_file_path, Open local_file_path, PbarOpen file_size];
             tr2 = tr1 @ [PbarClose, Close];
             content_b64 = concat encoded_chunks;
             data = [(''message'', commit_message),
                     (''content'', content_b64),
                     (''branch'', BRANCH_NAME cfg)];
             tr3 = tr2 @ [Print msg_finalizing];
             request = \<lparr>url = url, headers = headers, json = data\<rparr>;
             tr4 = tr3 @ [Put request]
         in
         (case net w request of
            None \<Rightarrow> (tr4, Inl RequestException)
          | Some response \<Rightarrow>
              if status_code response \<in> {200, 201}
              then (tr4 @ [Print msg_success], Inr PyNone)
              else (tr4 @ [Print (msg_failed (status_code response) (resp_text response))],
                    Inr PyNone)))))"

subsection \<open>Reading the trace\<close>

text \<open>
  The requests sent, the amounts given to \<^verbatim>\<open>pbar.update\<close>, the totals the progress
  bars were created with and the lines printed, in order.
\<close>

fun put_requests :: "event list \<Rightarrow> http_request list" where
  "put_requests [] = []"
| "put_requests (Put r # es) = r # put_requests es"
| "put_requests (_ # es) = put_requests es"

fun progress_updates :: "event list \<Rightarrow> nat list" where
  "progress_updates [] = []"
| "progress_updates (PbarUpdate k # es) = k # progress_updates es"
| "progress_updates (_ # es) = progress_updates es"

fun progress_totals :: "event list \<Rightarrow> nat list" where
  "progress_totals [] = []"
| "progress_totals (PbarOpen n # es) = n # progress_totals es"
| "progress_totals (_ # es) = progress_totals es"

fun printed :: "event list \<Rightarrow> string list" where
  "printed [] = []"
| "printed (Print s # es) = s # printed es"
| "printed (_ # es) = printed es"

text \<open>The \<^verbatim>\<open>content\<close> entry of a request's JSON body.\<close>

definition content_field :: "http_request \<Rightarrow> string option" where
  "content_field r = map_of (json r) ''content''"

text \<open>
  The counter of the progress bar (\<^verbatim>\<open>pbar.n\<close>, the bytes read so far) after the
  events \<open>tr\<close>: every update adds its amount.
\<close>

definition bytes_read :: "event list \<Rightarrow> nat" where
  "bytes_read tr = sum_list (progress_updates tr)"

text \<open>
  The identifiers that pass lines 12 to 16: there is a slash and the text before the first
  slash is not empty.
\<close>

definition passes_repo_check :: "string \<Rightarrow> bool" where
  "passes_repo_check rn \<longleftrightarrow> CHR ''/'' \<in> set rn \<and> takeWhile (\<lambda>c. c \<noteq> CHR ''/'') rn \<noteq> []"

text \<open>The errors of the configuration and of the file system, as opposed to the network's.\<close>

fun config_or_io_error :: "py_error + py_value \<Rightarrow> bool" where
  "config_or_io_error (Inl (ValueError m)) = True"
| "config_or_io_error (Inl (OSError m)) = True"
| "config_or_io_error _ = False"

subsection \<open>Inputs for the examples\<close>

text \<open>
  A configuration with the repository identifier \<open>rn\<close>, and a world with one readable
  file \<^verbatim>\<open>data.bin\<close> of content \<open>bs\<close> whose server gives every request the same
  \<open>answer\<close>.
\<close>

definition test_config :: "string \<Rightarrow> config" where
  "test_config rn = \<lparr>GITHUB_TOKEN = ''secret'', BRANCH_NAME = ''main'', REPO_NAME = rn\<rparr>"

definition test_world :: "byte list \<Rightarrow> http_response option \<Rightarrow> world" where
  "test_world bs answer =
     \<lparr>fs = (\<lambda>path. if path = ''data.bin''
                  then Some \<lparr>st_size = length bs, readable = True, content = bs\<rparr>
                  else None),
      net = (\<lambda>request. answer)\<rparr>"

section \<open>Properties of the embedding\<close>

subsection \<open>Base64: the alphabet and the six-bit groups\<close>

lemma b64_alphabet_length: "length b64_alphabet = 64"
  by (simp add: b64_alphabet_def)

lemma b64_alphabet_distinct: "distinct b64_alphabet"
  by (simp add: b64_alphabet_def)

lemma pad_not_in_alphabet: "CHR ''='' \<notin> set b64_alphabet"
  by (simp add: b64_alphabet_def)

lemma mask_numerals:
  "(3::byte) = mask 2" "(15::byte) = mask 4" "(63::byte) = mask 6"
  by (simp_all add: mask_eq_exp_minus_1)

lemma sextet_less: "unat ((v::byte) AND 63) < 64"
proof -
  have "v AND mask 6 < 2 ^ 6"
    by (rule and_mask_less') simp
  then show ?thesis
    by (simp add: mask_numerals word_less_nat_alt)
qed

lemma b64chr_in_alphabet: "b64chr v \<in> set b64_alphabet"
  unfolding b64chr_def
  by (rule nth_mem) (simp add: b64_alphabet_length sextet_less)

lemma b64chr_not_pad [simp]: "b64chr v \<noteq> CHR ''=''"
  using b64chr_in_alphabet [of v] pad_not_in_alphabet by metis

lemma b64idx_pad [simp]: "b64idx CHR ''='' = None"
  unfolding b64idx_def
  by (subst map_of_zip_is_None) (simp_all add: b64_alphabet_length pad_not_in_alphabet)

lemma b64idx_b64chr [simp]: "b64idx (b64chr v) = Some (v AND 63)"
proof -
  let ?i = "unat (v AND 63)"
  have i: "?i < 64" by (rule sextet_less)
  have "map_of (zip b64_alphabet (map of_nat [0..<64])) (b64_alphabet ! ?i)
          = Some ((map of_nat [0..<64] :: byte list) ! ?i)"
    by (rule map_of_zip_nth) (simp_all add: b64_alphabet_length b64_alphabet_distinct i)
  also have "(map of_nat [0..<64] :: byte list) ! ?i = of_nat ?i"
    using i by (simp only: nth_map length_upt nth_upt minus_nat.diff_0 add_0)
  finally show ?thesis
    by (simp add: b64idx_def b64chr_def)
qed

lemma byte_eqI:
  fixes a b :: byte
  assumes "\<And>n. n \<in> {0, 1, 2, 3, 4, 5, 6, 7} \<Longrightarrow> bit a n = bit b n"
  shows "a = b"
proof (rule bit_word_eqI)
  fix n assume "n < LENGTH(8)"
  then have "n \<in> {0, 1, 2, 3, 4, 5, 6, 7}" by (simp; arith)
  then show "bit a n = bit b n" by (rule assms)
qed

lemma byte_bit_high: "8 \<le> n \<Longrightarrow> \<not> bit (w::byte) n"
  using bit_imp_le_length [of w n] by auto

lemmas byte_bits = bit_simps byte_bit_high numeral_2_eq_2 [symmetric] numeral_3_eq_3 [symmetric]

lemma join_byte1:
  "push_bit 2 (drop_bit 2 (a::byte) AND 63) OR drop_bit 4 ((push_bit 4 (a AND 3) OR drop_bit 4 (b::byte)) AND 63) = a"
  unfolding mask_numerals take_bit_eq_mask [symmetric]
  by (rule byte_eqI) (auto simp add: byte_bits)

lemma join_byte1_last:
  "push_bit 2 (drop_bit 2 (a::byte) AND 63) OR drop_bit 4 (push_bit 4 (a AND 3) AND 63) = a"
  unfolding mask_numerals take_bit_eq_mask [symmetric]
  by (rule byte_eqI) (auto simp add: byte_bits)

lemma join_byte2:
  "push_bit 4 (((push_bit 4 ((a::byte) AND 3) OR drop_bit 4 (b::byte)) AND 63) AND 15)
     OR drop_bit 2 ((push_bit 2 (b AND 15) OR drop_bit 6 (c::byte)) AND 63) = b"
  unfolding mask_numerals take_bit_eq_mask [symmetric]
  by (rule byte_eqI) (auto simp add: byte_bits)

lemma join_byte2_last:
  "push_bit 4 (((push_bit 4 ((a::byte) AND 3) OR drop_bit 4 (b::byte)) AND 63) AND 15)
     OR drop_bit 2 (push_bit 2 (b AND 15) AND 63) = b"
  unfolding mask_numerals take_bit_eq_mask [symmetric]
  by (rule byte_eqI) (auto simp add: byte_bits)

lemma join_byte3:
  "push_bit 6 (((push_bit 2 ((b::byte) AND 15) OR drop_bit 6 (c::byte)) AND 63) AND 3) OR ((c AND 63) AND 63) = c"
  unfolding mask_numerals take_bit_eq_mask [symmetric]
  by (rule byte_eqI) (auto simp add: byte_bits)

lemmas join_bytes = join_byte1 join_byte1_last join_byte2 join_byte2_last join_byte3

text \<open>How the decoder reads one group of the encoder's output.\<close>

lemma b64decode_full_group:
  "b64decode strict (b64chr s1 # b64chr s2 # b64chr s3 # b64chr s4 # rest) =
     (case b64decode strict rest of
        None \<Rightarrow> None
      | Some bs \<Rightarrow>
          Some (([push_bit 2 (s1 AND 63) OR drop_bit 4 (s2 AND 63),
                  push_bit 4 ((s2 AND 63) AND 15) OR drop_bit 2 (s3 AND 63),
                  push_bit 6 ((s3 AND 63) AND 3) OR (s4 AND 63)]) @ bs))"
  by (simp only: b64decode.simps b64chr_not_pad b64idx_b64chr if_False prod.case option.case)

lemma b64decode_two_byte_group:
  "b64decode strict (b64chr s1 # b64chr s2 # b64chr s3 # CHR ''='' # rest) =
     (if strict \<and> rest \<noteq> [] then None
      else Some [push_bit 2 (s1 AND 63) OR drop_bit 4 (s2 AND 63),
                 push_bit 4 ((s2 AND 63) AND 15) OR drop_bit 2 (s3 AND 63)])"
  by (simp only: b64decode.simps b64chr_not_pad b64idx_b64chr if_False if_True prod.case option.case refl)

lemma b64decode_one_byte_group:
  "b64decode strict (b64chr s1 # b64chr s2 # CHR ''='' # CHR ''='' # rest) =
     (if strict \<and> rest \<noteq> [] then None
      else Some [push_bit 2 (s1 AND 63) OR drop_bit 4 (s2 AND 63)])"
  by (simp only: b64decode.simps b64chr_not_pad b64idx_b64chr if_False if_True prod.case option.case refl)

lemmas b64decode_groups =
  b64encode.simps append_Cons append_Nil
  b64decode_full_group b64decode_two_byte_group b64decode_one_byte_group join_bytes

text \<open>Decoding inverts encoding, strictly or not.\<close>

lemma b64decode_b64encode: "b64decode strict (b64encode xs) = Some xs"
proof (induction xs rule: b64encode.induct)
  case (1 a b c rest)
  then show ?case by (simp only: b64decode_groups option.case)
next
  case (2 a b)
  show ?case by (simp only: b64decode_groups) simp
next
  case (3 a)
  show ?case by (simp only: b64decode_groups) simp
next
  case 4
  show ?case by simp
qed

lemma b64encode_append:
  "length xs mod 3 = 0 \<Longrightarrow> b64encode (xs @ ys) = b64encode xs @ b64encode ys"
  by (induction xs rule: b64encode.induct) simp_all

lemma b64encode_Nil_iff [simp]: "b64encode xs = [] \<longleftrightarrow> xs = []"
  by (cases xs rule: b64encode.cases) simp_all

text \<open>
  After an encoding whose length is not a multiple of three the data is closed: a strict
  decoder rejects anything that follows, a lenient one drops it.
\<close>

lemma b64decode_strict_after_pad:
  "length xs mod 3 \<noteq> 0 \<Longrightarrow> s \<noteq> [] \<Longrightarrow> b64decode True (b64encode xs @ s) = None"
proof (induction xs rule: b64encode.induct)
  case (1 a b c rest)
  then have "b64decode True (b64encode rest @ s) = None" by simp
  then show ?case by (simp only: b64decode_groups option.case)
next
  case (2 a b)
  then show ?case by (simp only: b64decode_groups) simp
next
  case (3 a)
  then show ?case by (simp only: b64decode_groups) simp
next
  case 4
  then show ?case by simp
qed

lemma b64decode_lenient_after_pad:
  "length xs mod 3 \<noteq> 0 \<Longrightarrow> b64decode False (b64encode xs @ s) = Some xs"
proof (induction xs rule: b64encode.induct)
  case (1 a b c rest)
  then have "b64decode False (b64encode rest @ s) = Some rest" by simp
  then show ?case by (simp only: b64decode_groups option.case)
next
  case (2 a b)
  show ?case by (simp only: b64decode_groups) simp
next
  case (3 a)
  show ?case by (simp only: b64decode_groups) simp
next
  case 4
  then show ?case by simp
qed

subsection \<open>Splitting the repository identifier\<close>

lemma py_split_not_Nil [simp]: "py_split sep s \<noteq> []"
  by (induction s) (auto split: list.splits)

lemma py_split_no_sep:
  "sep \<notin> set s \<Longrightarrow> py_split sep s = [s]"
  by (induction s) auto

lemma py_split_at_first_sep:
  "sep \<in> set s \<Longrightarrow>
   py_split sep s =
     takeWhile (\<lambda>c. c \<noteq> sep) s # py_split sep (tl (dropWhile (\<lambda>c. c \<noteq> sep) s))"
  by (induction s) (auto split: list.splits)

lemma py_split_hd:
  "hd (py_split sep s) = takeWhile (\<lambda>c. c \<noteq> sep) s"
  by (induction s) (auto split: list.splits)

lemma repo_owner_slash:
  "CHR ''/'' \<in> set rn \<Longrightarrow> repo_owner rn = Inr (Some (takeWhile (\<lambda>c. c \<noteq> CHR ''/'') rn))"
  by (simp add: repo_owner_def py_index_def py_split_at_first_sep)

lemma repo_owner_no_slash:
  "CHR ''/'' \<notin> set rn \<Longrightarrow> repo_owner rn = Inr None"
  by (simp add: repo_owner_def)

lemma repo_name_of_slash:
  "CHR ''/'' \<in> set rn \<Longrightarrow>
   repo_name_of rn =
     Inr (takeWhile (\<lambda>c. c \<noteq> CHR ''/'') (tl (dropWhile (\<lambda>c. c \<noteq> CHR ''/'') rn)))"
proof -
  assume a: "CHR ''/'' \<in> set rn"
  let ?r = "tl (dropWhile (\<lambda>c. c \<noteq> CHR ''/'') rn)"
  have "py_split CHR ''/'' ?r = hd (py_split CHR ''/'' ?r) # tl (py_split CHR ''/'' ?r)"
    by simp
  then have "py_split CHR ''/'' rn =
      takeWhile (\<lambda>c. c \<noteq> CHR ''/'') rn # takeWhile (\<lambda>c. c \<noteq> CHR ''/'') ?r # tl (py_split CHR ''/'' ?r)"
    using py_split_at_first_sep [OF a] by (simp add: py_split_hd)
  then show ?thesis
    using a by (simp add: repo_name_of_def py_index_def)
qed

lemma repo_name_of_no_slash:
  "CHR ''/'' \<notin> set rn \<Longrightarrow> repo_name_of rn = Inr rn"
  by (simp add: repo_name_of_def)

lemma truthy_owner_iff:
  "(\<exists>owner. repo_owner rn = Inr owner \<and> truthy owner) \<longleftrightarrow> passes_repo_check rn"
  by (cases "CHR ''/'' \<in> set rn")
     (simp_all add: repo_owner_slash repo_owner_no_slash truthy_def passes_repo_check_def)

subsection \<open>The read loop\<close>

lemma read_loop_stop:
  "take sz rest = [] \<Longrightarrow> read_loop sz rest enc tr = (enc, tr @ [Read 0])"
  by (subst read_loop.simps) simp

lemma read_loop_step:
  "take sz rest \<noteq> [] \<Longrightarrow>
   read_loop sz rest enc tr =
     read_loop sz (drop sz rest) (enc @ [b64encode (take sz rest)])
       (tr @ [Read (length (take sz rest)), PbarUpdate (length (take sz rest))])"
  by (subst read_loop.simps) (simp add: Let_def)

lemma put_requests_append [simp]:
  "put_requests (xs @ ys) = put_requests xs @ put_requests ys"
  by (induction xs rule: put_requests.induct) simp_all

lemma progress_updates_append [simp]:
  "progress_updates (xs @ ys) = progress_updates xs @ progress_updates ys"
  by (induction xs rule: progress_updates.induct) simp_all

lemma printed_append [simp]:
  "printed (xs @ ys) = printed xs @ printed ys"
  by (induction xs rule: printed.induct) simp_all

lemma bytes_read_append [simp]:
  "bytes_read (xs @ ys) = bytes_read xs + bytes_read ys"
  by (simp add: bytes_read_def)

text \<open>The loop sends nothing and prints nothing; its updates add up to the bytes it read.\<close>

lemma read_loop_put_requests [simp]:
  "put_requests (snd (read_loop sz rest enc tr)) = put_requests tr"
proof (induction sz rest enc tr rule: read_loop.induct)
  case (1 sz rest enc tr)
  show ?case
  proof (cases "take sz rest = []")
    case True
    then show ?thesis by (simp add: read_loop_stop)
  next
    case False
    then show ?thesis using 1 by (simp add: read_loop_step)
  qed
qed

lemma read_loop_printed [simp]:
  "printed (snd (read_loop sz rest enc tr)) = printed tr"
proof (induction sz rest enc tr rule: read_loop.induct)
  case (1 sz rest enc tr)
  show ?case
  proof (cases "take sz rest = []")
    case True
    then show ?thesis by (simp add: read_loop_stop)
  next
    case False
    then show ?thesis using 1 by (simp add: read_loop_step)
  qed
qed

lemma read_loop_bytes_read:
  "bytes_read (snd (read_loop sz rest enc tr)) = bytes_read tr + (if sz = 0 then 0 else length rest)"
proof (induction sz rest enc tr rule: read_loop.induct)
  case (1 sz rest enc tr)
  show ?case
  proof (cases "take sz rest = []")
    case True
    then show ?thesis by (auto simp add: read_loop_stop bytes_read_def)
  next
    case False
    then have "sz \<noteq> 0" by auto
    have "length (take sz rest) + length (drop sz rest) = length rest"
      by (simp only: length_append [symmetric] append_take_drop_id)
    with False \<open>sz \<noteq> 0\<close> show ?thesis
      using 1 by (simp add: read_loop_step bytes_read_def)
  qed
qed

text \<open>The encoded chunks do not depend on the trace, and the earlier chunks stay in front.\<close>

lemma read_loop_chunks:
  "fst (read_loop sz rest enc tr) = enc @ fst (read_loop sz rest [] [])"
proof (induction "length rest" arbitrary: rest enc tr rule: less_induct)
  case less
  show ?case
  proof (cases "take sz rest = []")
    case True
    then show ?thesis by (simp add: read_loop_stop)
  next
    case False
    let ?c = "b64encode (take sz rest)"
    let ?e = "[Read (length (take sz rest)), PbarUpdate (length (take sz rest))]"
    from False have shorter: "length (drop sz rest) < length rest" by auto
    have "fst (read_loop sz rest enc tr) = fst (read_loop sz (drop sz rest) (enc @ [?c]) (tr @ ?e))"
      by (simp only: read_loop_step [OF False])
    also have "\<dots> = (enc @ [?c]) @ fst (read_loop sz (drop sz rest) [] [])"
      by (rule less [OF shorter])
    finally have left: "fst (read_loop sz rest enc tr) =
        enc @ ?c # fst (read_loop sz (drop sz rest) [] [])"
      by simp
    have "fst (read_loop sz rest [] []) = fst (read_loop sz (drop sz rest) ([] @ [?c]) ([] @ ?e))"
      by (simp only: read_loop_step [OF False])
    also have "\<dots> = ([] @ [?c]) @ fst (read_loop sz (drop sz rest) [] [])"
      by (rule less [OF shorter])
    finally have right: "fst (read_loop sz rest [] []) =
        ?c # fst (read_loop sz (drop sz rest) [] [])"
      by simp
    show ?thesis by (simp only: left right)
  qed
qed

text \<open>A file of at most one chunk is encoded whole; a longer one chunk by chunk.\<close>

lemma read_loop_empty_file [simp]:
  "read_loop sz [] enc tr = (enc, tr @ [Read 0])"
  by (simp add: read_loop_stop)

lemma read_loop_one_chunk:
  "rest \<noteq> [] \<Longrightarrow> length rest \<le> sz \<Longrightarrow>
   fst (read_loop sz rest [] []) = [b64encode rest]"
  by (simp add: read_loop_step)

lemma read_loop_first_chunk:
  "0 < sz \<Longrightarrow> rest \<noteq> [] \<Longrightarrow>
   fst (read_loop sz rest [] []) =
     b64encode (take sz rest) # fst (read_loop sz (drop sz rest) [] [])"
proof -
  assume "0 < sz" and "rest \<noteq> []"
  then have ne: "take sz rest \<noteq> []" by simp
  have "fst (read_loop sz rest [] []) =
          fst (read_loop sz (drop sz rest) ([] @ [b64encode (take sz rest)])
                ([] @ [Read (length (take sz rest)), PbarUpdate (length (take sz rest))]))"
    by (simp only: read_loop_step [OF ne])
  also have "\<dots> = ([] @ [b64encode (take sz rest)]) @ fst (read_loop sz (drop sz rest) [] [])"
    by (rule read_loop_chunks)
  finally show ?thesis by simp
qed

lemma read_loop_payload_Nil_iff:
  "0 < sz \<Longrightarrow> concat (fst (read_loop sz rest [] [])) = [] \<longleftrightarrow> rest = []"
  by (cases "rest = []") (simp_all add: read_loop_first_chunk)

text \<open>With a chunk size that is a multiple of three the joined chunks are the encoding of the file.\<close>

lemma read_loop_multiple_of_three:
  "0 < sz \<Longrightarrow> sz mod 3 = 0 \<Longrightarrow> concat (fst (read_loop sz rest [] [])) = b64encode rest"
proof (induction "length rest" arbitrary: rest rule: less_induct)
  case less
  show ?case
  proof (cases "length rest \<le> sz")
    case True
    then show ?thesis
      by (cases "rest = []") (simp_all add: read_loop_one_chunk)
  next
    case False
    then have ne: "rest \<noteq> []" and len: "length (take sz rest) = sz" by auto
    have shorter: "length (drop sz rest) < length rest"
      using False less.prems by simp
    have "b64encode rest = b64encode (take sz rest @ drop sz rest)" by simp
    also have "\<dots> = b64encode (take sz rest) @ b64encode (drop sz rest)"
      by (rule b64encode_append) (simp only: len less.prems)
    finally show ?thesis
      using less.hyps [OF shorter] less.prems ne by (simp add: read_loop_first_chunk)
  qed
qed

text \<open>
  With the chunk size 4096, one more than a multiple of three, the first chunk of a
  longer file ends in pads and more data follows it.
\<close>

lemma first_chunk_4096:
  assumes "4096 < length file"
  shows "concat (fst (read_loop 4096 file [] [])) =
           b64encode (take 4096 file) @ concat (fst (read_loop 4096 (drop 4096 file) [] []))"
    and "length (take 4096 file) mod 3 \<noteq> 0"
    and "concat (fst (read_loop 4096 (drop 4096 file) [] [])) \<noteq> []"
proof -
  have ne: "file \<noteq> []" and rest: "drop 4096 file \<noteq> []" using assms by auto
  have len: "length (take 4096 file) = 4096" using assms by simp
  have "fst (read_loop 4096 file [] []) =
          b64encode (take 4096 file) # fst (read_loop 4096 (drop 4096 file) [] [])"
    by (rule read_loop_first_chunk [OF zero_less_numeral ne])
  then show "concat (fst (read_loop 4096 file [] [])) =
           b64encode (take 4096 file) @ concat (fst (read_loop 4096 (drop 4096 file) [] []))"
    by (simp only: concat.simps)
  show "length (take 4096 file) mod 3 \<noteq> 0"
    by (simp only: len) simp
  show "concat (fst (read_loop 4096 (drop 4096 file) [] [])) \<noteq> []"
    using rest read_loop_payload_Nil_iff [of 4096 "drop 4096 file"]
    by (simp only: zero_less_numeral) blast
qed

lemma payload_4096_strict:
  assumes "4096 < length file"
  shows "b64decode True (concat (fst (read_loop 4096 file [] []))) = None"
  unfolding first_chunk_4096 (1) [OF assms]
  by (rule b64decode_strict_after_pad [OF first_chunk_4096 (2, 3) [OF assms]])

lemma payload_4096_lenient:
  assumes "4096 < length file"
  shows "b64decode False (concat (fst (read_loop 4096 file [] []))) = Some (take 4096 file)"
  unfolding first_chunk_4096 (1) [OF assms]
  by (rule b64decode_lenient_after_pad [OF first_chunk_4096 (2) [OF assms]])

lemma payload_4096_short:
  assumes "length file \<le> 4096"
  shows "b64decode strict (concat (fst (read_loop 4096 file [] []))) = Some file"
proof (cases "file = []")
  case True
  then show ?thesis by simp
next
  case False
  have "fst (read_loop 4096 file [] []) = [b64encode file]"
    by (rule read_loop_one_chunk [OF False assms])
  then show ?thesis
    by (simp add: b64decode_b64encode)
qed

lemma progress_totals_append [simp]:
  "progress_totals (xs @ ys) = progress_totals xs @ progress_totals ys"
  by (induction xs rule: progress_totals.induct) simp_all

lemma read_loop_progress_totals [simp]:
  "progress_totals (snd (read_loop sz rest enc tr)) = progress_totals tr"
proof (induction sz rest enc tr rule: read_loop.induct)
  case (1 sz rest enc tr)
  show ?case
  proof (cases "take sz rest = []")
    case True
    then show ?thesis by (simp add: read_loop_stop)
  next
    case False
    then show ?thesis using 1 by (simp add: read_loop_step)
  qed
qed

lemma read_loop_chunks_trace:
  "tr \<noteq> [] \<Longrightarrow> fst (read_loop sz rest [] tr) = fst (read_loop sz rest [] [])"
  using read_loop_chunks [of sz rest "[]" tr] by simp

subsection \<open>The four ways through the upload\<close>

lemma upload_rejected:
  assumes "\<not> passes_repo_check (REPO_NAME cfg)"
  shows "upload_with_real_progress cfg w p g m = ([], Inl (ValueError format_error))"
proof (cases "CHR ''/'' \<in> set (REPO_NAME cfg)")
  case True
  with assms show ?thesis
    by (simp add: upload_with_real_progress_def repo_owner_slash repo_name_of_slash
        truthy_def passes_repo_check_def)
next
  case False
  then show ?thesis
    by (simp add: upload_with_real_progress_def repo_owner_no_slash repo_name_of_no_slash
        truthy_def)
qed

lemma upload_missing_file:
  assumes "passes_repo_check (REPO_NAME cfg)" and "fs w p = None"
  shows "upload_with_real_progress cfg w p g m = ([Getsize p], Inl (OSError p))"
  using assms
  by (simp add: upload_with_real_progress_def repo_owner_slash repo_name_of_slash
      truthy_def passes_repo_check_def)

lemma upload_unreadable_file:
  assumes "passes_repo_check (REPO_NAME cfg)" and "fs w p = Some fe" and "\<not> readable fe"
  shows "upload_with_real_progress cfg w p g m = ([Getsize p, Open p], Inl (OSError p))"
  using assms
  by (simp add: upload_with_real_progress_def repo_owner_slash repo_name_of_slash
      truthy_def passes_repo_check_def)

lemma upload_reaches_network:
  fixes cfg :: config and w :: world and p g m :: string and fe :: file_entry
  assumes "passes_repo_check (REPO_NAME cfg)" and "fs w p = Some fe" and "readable fe"
  defines "pre \<equiv> snd (read_loop 4096 (content fe) [] [Getsize p, Open p, PbarOpen (st_size fe)])
                   @ [PbarClose, Close, Print msg_finalizing]"
    and "req \<equiv> \<lparr>url = api_url (takeWhile (\<lambda>c. c \<noteq> CHR ''/'') (REPO_NAME cfg))
                        (takeWhile (\<lambda>c. c \<noteq> CHR ''/'')
                           (tl (dropWhile (\<lambda>c. c \<noteq> CHR ''/'') (REPO_NAME cfg)))) g,
                  headers = [(''Authorization'', ''token '' @ GITHUB_TOKEN cfg),
                             (''Accept'', ''application/vnd.github.v3+json'')],
                  json = [(''message'', m),
                          (''content'', concat (fst (read_loop 4096 (content fe) [] []))),
                          (''branch'', BRANCH_NAME cfg)]\<rparr>"
  shows "upload_with_real_progress cfg w p g m =
           (case net w req of
              None \<Rightarrow> (pre @ [Put req], Inl RequestException)
            | Some response \<Rightarrow>
                (pre @ [Put req,
                        Print (if status_code response = 200 \<or> status_code response = 201
                               then msg_success
                               else msg_failed (status_code response) (resp_text response))],
                 Inr PyNone))"
  using assms(1-3) unfolding pre_def req_def
  by (simp add: upload_with_real_progress_def repo_owner_slash repo_name_of_slash
      truthy_def format_owner_def passes_repo_check_def Let_def split_beta read_loop_chunks_trace
      split: option.split)

lemma upload_sent:
  assumes "passes_repo_check (REPO_NAME cfg)" and "fs w p = Some fe" and "readable fe"
  shows "\<exists>req. put_requests (fst (upload_with_real_progress cfg w p g m)) = [req]
           \<and> content_field req = Some (concat (fst (read_loop 4096 (content fe) [] [])))"
  using upload_reaches_network [OF assms, of g m]
  by (simp add: content_field_def split: option.split)

lemma bytes_read_Nil [simp]: "bytes_read [] = 0"
  by (simp add: bytes_read_def)

lemma bytes_read_Cons [simp]:
  "bytes_read (e # es) = (case e of PbarUpdate k \<Rightarrow> k | _ \<Rightarrow> 0) + bytes_read es"
  by (cases e) (simp_all add: bytes_read_def)

lemma upload_progress:
  assumes "passes_repo_check (REPO_NAME cfg)" and "fs w p = Some fe" and "readable fe"
  shows "bytes_read (fst (upload_with_real_progress cfg w p g m)) = length (content fe)"
    and "progress_totals (fst (upload_with_real_progress cfg w p g m)) = [st_size fe]"
  using upload_reaches_network [OF assms, of g m]
  by (simp_all add: read_loop_bytes_read split: option.split)

lemma test_inputs [simp]:
  "passes_repo_check (REPO_NAME (test_config ''octo/demo''))"
  "fs (test_world bs answer) ''data.bin'' =
     Some \<lparr>st_size = length bs, readable = True, content = bs\<rparr>"
  "fs (test_world bs answer) ''gone.bin'' = None"
  "net (test_world bs answer) request = answer"
  by (simp_all add: passes_repo_check_def test_config_def test_world_def)

text \<open>The lines of the prints, spelled out, and the decimal form of some status codes.\<close>

lemma printed_lines:
  "msg_finalizing = CHR 0x0A # ''Finalizing upload to GitHub (this may take a moment)...''"
  "msg_success = [CHR 0xE2, CHR 0x9C, CHR 0x85] @ '' Upload successful!''"
  "msg_failed code body =
     [CHR 0xE2, CHR 0x9D, CHR 0x8C] @ '' Upload failed: '' @ str_int code @ '' - '' @ body"
  by (simp_all add: msg_finalizing_def msg_success_def msg_failed_def)

lemma str_int_three_digits:
  assumes "100 \<le> c" and "c < 1000"
  shows "str_int c =
           [digit_char (nat c div 100), digit_char (nat c div 10 mod 10), digit_char (nat c mod 10)]"
proof -
  let ?n = "nat c"
  have n: "100 \<le> ?n" "?n < 1000" using assms by auto
  then have a: "\<not> ?n < 10" and b: "\<not> ?n div 10 < 10" and e: "?n div 10 div 10 < 10"
    by auto
  have "str_nat ?n = str_nat (?n div 10) @ [digit_char (?n mod 10)]"
    using a by (subst str_nat.simps) simp
  also have "str_nat (?n div 10) = str_nat (?n div 10 div 10) @ [digit_char (?n div 10 mod 10)]"
    using b by (subst str_nat.simps) simp
  also have "str_nat (?n div 10 div 10) = [digit_char (?n div 10 div 10)]"
    using e by (subst str_nat.simps) simp
  finally have "str_nat ?n =
      [digit_char (?n div 100), digit_char (?n div 10 mod 10), digit_char (?n mod 10)]"
    by (simp add: div_mult2_eq [symmetric])
  with assms show ?thesis by (simp add: str_int_def)
qed

lemma str_int_examples:
  "str_int 403 = ''403''" "str_int 404 = ''404''" "str_int 500 = ''500''"
  by (simp_all add: str_int_three_digits digit_char_def)

lemma upload_outcome:
  assumes "passes_repo_check (REPO_NAME cfg)" and "fs w p = Some fe" and "readable fe"
    and "put_requests (fst (upload_with_real_progress cfg w p g m)) = [req]"
  shows "net w req = None \<Longrightarrow>
           snd (upload_with_real_progress cfg w p g m) = Inl RequestException
           \<and> printed (fst (upload_with_real_progress cfg w p g m)) = [msg_finalizing]"
    and "net w req = Some resp \<Longrightarrow>
           snd (upload_with_real_progress cfg w p g m) = Inr PyNone
           \<and> printed (fst (upload_with_real_progress cfg w p g m)) =
               [msg_finalizing,
                if status_code resp = 200 \<or> status_code resp = 201 then msg_success
                else msg_failed (status_code resp) (resp_text resp)]"
  using upload_reaches_network [OF assms(1-3), of g m] assms(4)
  by (auto split: option.splits)

lemma bytes_read_take_le: "bytes_read (take k tr) \<le> bytes_read tr"
proof -
  have "bytes_read tr = bytes_read (take k tr) + bytes_read (drop k tr)"
    by (simp only: bytes_read_append [symmetric] append_take_drop_id)
  then show ?thesis by simp
qed

lemma bytes_read_mono: "j \<le> k \<Longrightarrow> bytes_read (take j tr) \<le> bytes_read (take k tr)"
proof -
  assume "j \<le> k"
  then have "take j tr = take j (take k tr)" by (simp add: min_def)
  then show ?thesis using bytes_read_take_le [of j "take k tr"] by simp
qed

lemma upload_bytes_read_le:
  assumes "fs w p = Some fe"
  shows "bytes_read (fst (upload_with_real_progress cfg w p g m)) \<le> length (content fe)"
proof (cases "passes_repo_check (REPO_NAME cfg)")
  case False
  then show ?thesis by (simp add: upload_rejected)
next
  case True
  show ?thesis
  proof (cases "readable fe")
    case False
    with True assms show ?thesis by (simp add: upload_unreadable_file)
  next
    case readable: True
    show ?thesis by (simp add: upload_progress(1) [OF True assms readable])
  qed
qed

lemma upload_progress_totals:
  assumes "fs w p = Some fe"
  shows "set (progress_totals (fst (upload_with_real_progress cfg w p g m))) \<subseteq> {st_size fe}"
proof (cases "passes_repo_check (REPO_NAME cfg)")
  case False
  then show ?thesis by (simp add: upload_rejected)
next
  case True
  show ?thesis
  proof (cases "readable fe")
    case False
    with True assms show ?thesis by (simp add: upload_unreadable_file)
  next
    case readable: True
    show ?thesis by (simp add: upload_progress(2) [OF True assms readable])
  qed
qed

section \<open>The claims\<close>

text \<open>
  Claim C1 says that the transmitted payload, the concatenation of the chunks of 4096
  bytes encoded one by one, decodes to the bytes of the file for every length N. 4096 is
  one more than a multiple of three, so every full chunk is encoded with two pads at its
  end, and for a file longer than one chunk these pads stand in the middle of the
  payload. At a file of 4097 zero bytes the payload sent is the one the loop built; a
  strict decoder rejects it, and a lenient one returns the first 4096 bytes only.
\<close>

theorem payload_of_4097_bytes_does_not_decode:
  "map content_field (put_requests (fst (upload_with_real_progress (test_config ''octo/demo'')
       (test_world (replicate 4097 0) (Some \<lparr>status_code = 201, resp_text = ''Created''\<rparr>))
       ''data.bin'' ''docs/data.bin'' ''add data'')))
     = [Some (concat (fst (read_loop 4096 (replicate 4097 0) [] [])))]
   \<and> b64decode True (concat (fst (read_loop 4096 (replicate 4097 0) [] []))) = None
   \<and> b64decode False (concat (fst (read_loop 4096 (replicate 4097 0) [] [])))
       = Some (replicate 4096 0)
   \<and> replicate 4096 0 \<noteq> (replicate 4097 0 :: byte list)"
proof -
  let ?file = "replicate 4097 0 :: byte list"
  have long: "4096 < length ?file" by simp
  have "passes_repo_check (REPO_NAME (test_config ''octo/demo''))" by simp
  from upload_sent [OF this, of
      "test_world ?file (Some \<lparr>status_code = 201, resp_text = ''Created''\<rparr>)"
      "''data.bin''" "\<lparr>st_size = length ?file, readable = True, content = ?file\<rparr>"
      "''docs/data.bin''" "''add data''"]
  have sent: "map content_field (put_requests (fst (upload_with_real_progress
       (test_config ''octo/demo'')
       (test_world ?file (Some \<lparr>status_code = 201, resp_text = ''Created''\<rparr>))
       ''data.bin'' ''docs/data.bin'' ''add data'')))
     = [Some (concat (fst (read_loop 4096 ?file [] [])))]"
    by auto
  have "take 4096 ?file = replicate 4096 0"
    by simp
  with payload_4096_lenient [OF long]
  have lenient: "b64decode False (concat (fst (read_loop 4096 ?file [] []))) = Some (replicate 4096 0)"
    by (simp only:)
  have "length (replicate 4096 (0::byte)) \<noteq> length ?file"
    by simp
  then have differ: "replicate 4096 0 \<noteq> ?file" by (metis)
  from sent payload_4096_strict [OF long] lenient differ show ?thesis by (simp only: simp_thms)
qed

text \<open>
  Claim C2 says that an identifier without a slash, with an empty owner or with an empty
  repository name fails before any I/O. The check of line 15 looks at the owner only: the
  identifier \<^verbatim>\<open>owner/\<close> passes it, the file is read and the PUT goes to a URL
  with an empty repository segment.
\<close>

theorem empty_repo_name_is_accepted:
  "upload_with_real_progress (test_config ''owner/'')
       (test_world [] (Some \<lparr>status_code = 404, resp_text = ''Not Found''\<rparr>))
       ''data.bin'' ''docs/data.bin'' ''add data''
     = ([Getsize ''data.bin'', Open ''data.bin'', PbarOpen 0, Read 0, PbarClose, Close,
         Print msg_finalizing,
         Put \<lparr>url = ''https://api.github.com/repos/owner//contents/docs/data.bin'',
              headers = [(''Authorization'', ''token secret''),
                         (''Accept'', ''application/vnd.github.v3+json'')],
              json = [(''message'', ''add data''), (''content'', []), (''branch'', ''main'')]\<rparr>,
         Print (msg_failed 404 ''Not Found'')],
        Inr PyNone)"
proof -
  have "passes_repo_check (REPO_NAME (test_config ''owner/''))"
    by (simp add: test_config_def passes_repo_check_def)
  from upload_reaches_network [OF this, of
      "test_world [] (Some \<lparr>status_code = 404, resp_text = ''Not Found''\<rparr>)"
      "''data.bin''" "\<lparr>st_size = 0, readable = True, content = []\<rparr>"
      "''docs/data.bin''" "''add data''"]
  show ?thesis
    by (simp add: test_config_def api_url_def)
qed

text \<open>
  Claim C3. For every HTTP response to the PUT request: when the status code is 200 or
  201 the upload reports success, for any other status code it reports the failure with
  that status code and the text of the response body, and it raises no exception. The
  report is the line printed after the request (lines 50 to 53).
\<close>

theorem response_classification:
  assumes "passes_repo_check (REPO_NAME cfg)" and "fs w p = Some fe" and "readable fe"
  shows "\<exists>req. put_requests (fst (upload_with_real_progress cfg w p g m)) = [req]
           \<and> (\<forall>resp. net w req = Some resp \<longrightarrow>
                 snd (upload_with_real_progress cfg w p g m) = Inr PyNone
                 \<and> printed (fst (upload_with_real_progress cfg w p g m)) =
                     [CHR 0x0A # ''Finalizing upload to GitHub (this may take a moment)...'',
                      if status_code resp = 200 \<or> status_code resp = 201
                      then [CHR 0xE2, CHR 0x9C, CHR 0x85] @ '' Upload successful!''
                      else [CHR 0xE2, CHR 0x9D, CHR 0x8C] @ '' Upload failed: '' @ str_int (status_code resp)
                             @ '' - '' @ resp_text resp]
                 \<and> [CHR 0xE2, CHR 0x9C, CHR 0x85] @ '' Upload successful!''
                     \<noteq> [CHR 0xE2, CHR 0x9D, CHR 0x8C] @ '' Upload failed: '' @ str_int (status_code resp)
                             @ '' - '' @ resp_text resp)"
proof -
  from upload_sent [OF assms, of g m]
  obtain req where req: "put_requests (fst (upload_with_real_progress cfg w p g m)) = [req]"
    by blast
  have "snd (upload_with_real_progress cfg w p g m) = Inr PyNone
        \<and> printed (fst (upload_with_real_progress cfg w p g m)) =
            [CHR 0x0A # ''Finalizing upload to GitHub (this may take a moment)...'',
             if status_code resp = 200 \<or> status_code resp = 201
             then [CHR 0xE2, CHR 0x9C, CHR 0x85] @ '' Upload successful!''
             else [CHR 0xE2, CHR 0x9D, CHR 0x8C] @ '' Upload failed: '' @ str_int (status_code resp)
                             @ '' - '' @ resp_text resp]"
    if "net w req = Some resp" for resp
    using upload_outcome(2) [OF assms req that] by (simp add: printed_lines)
  with req show ?thesis by auto
qed

theorem response_classification_witness:
  "passes_repo_check (REPO_NAME (test_config ''octo/demo''))
   \<and> fs (test_world [1, 2, 3] (Some \<lparr>status_code = 403, resp_text = ''Bad credentials''\<rparr>)) ''data.bin''
       = Some \<lparr>st_size = 3, readable = True, content = [1, 2, 3]\<rparr>
   \<and> snd (upload_with_real_progress (test_config ''octo/demo'')
         (test_world [1, 2, 3] (Some \<lparr>status_code = 403, resp_text = ''Bad credentials''\<rparr>))
         ''data.bin'' ''docs/data.bin'' ''add data'') = Inr PyNone
   \<and> printed (fst (upload_with_real_progress (test_config ''octo/demo'')
         (test_world [1, 2, 3] (Some \<lparr>status_code = 403, resp_text = ''Bad credentials''\<rparr>))
         ''data.bin'' ''docs/data.bin'' ''add data''))
       = [CHR 0x0A # ''Finalizing upload to GitHub (this may take a moment)...'',
          [CHR 0xE2, CHR 0x9D, CHR 0x8C] @ '' Upload failed: 403 - Bad credentials'']
   \<and> fs (test_world [1, 2, 3] (Some \<lparr>status_code = 500, resp_text = ''Server Error''\<rparr>)) ''data.bin''
       = Some \<lparr>st_size = 3, readable = True, content = [1, 2, 3]\<rparr>
   \<and> snd (upload_with_real_progress (test_config ''octo/demo'')
         (test_world [1, 2, 3] (Some \<lparr>status_code = 500, resp_text = ''Server Error''\<rparr>))
         ''data.bin'' ''docs/data.bin'' ''add data'') = Inr PyNone
   \<and> printed (fst (upload_with_real_progress (test_config ''octo/demo'')
         (test_world [1, 2, 3] (Some \<lparr>status_code = 500, resp_text = ''Server Error''\<rparr>))
         ''data.bin'' ''docs/data.bin'' ''add data''))
       = [CHR 0x0A # ''Finalizing upload to GitHub (this may take a moment)...'',
          [CHR 0xE2, CHR 0x9D, CHR 0x8C] @ '' Upload failed: 500 - Server Error'']
   \<and> fs (test_world [1, 2, 3] (Some \<lparr>status_code = 201, resp_text = ''Created''\<rparr>)) ''data.bin''
       = Some \<lparr>st_size = 3, readable = True, content = [1, 2, 3]\<rparr>
   \<and> snd (upload_with_real_progress (test_config ''octo/demo'')
         (test_world [1, 2, 3] (Some \<lparr>status_code = 201, resp_text = ''Created''\<rparr>))
         ''data.bin'' ''docs/data.bin'' ''add data'') = Inr PyNone
   \<and> printed (fst (upload_with_real_progress (test_config ''octo/demo'')
         (test_world [1, 2, 3] (Some \<lparr>status_code = 201, resp_text = ''Created''\<rparr>))
         ''data.bin'' ''docs/data.bin'' ''add data''))
       = [CHR 0x0A # ''Finalizing upload to GitHub (this may take a moment)...'',
          [CHR 0xE2, CHR 0x9C, CHR 0x85] @ '' Upload successful!'']"
  using response_classification [of "test_config ''octo/demo''"
      "test_world [1, 2, 3] (Some \<lparr>status_code = 403, resp_text = ''Bad credentials''\<rparr>)"
      "''data.bin''" "\<lparr>st_size = 3, readable = True, content = [1, 2, 3]\<rparr>"
      "''docs/data.bin''" "''add data''"]
    response_classification [of "test_config ''octo/demo''"
      "test_world [1, 2, 3] (Some \<lparr>status_code = 500, resp_text = ''Server Error''\<rparr>)"
      "''data.bin''" "\<lparr>st_size = 3, readable = True, content = [1, 2, 3]\<rparr>"
      "''docs/data.bin''" "''add data''"]
    response_classification [of "test_config ''octo/demo''"
      "test_world [1, 2, 3] (Some \<lparr>status_code = 201, resp_text = ''Created''\<rparr>)"
      "''data.bin''" "\<lparr>st_size = 3, readable = True, content = [1, 2, 3]\<rparr>"
      "''docs/data.bin''" "''add data''"]
  by (auto simp add: str_int_examples)

text \<open>
  Claim C4. For every readable file of N bytes, the byte counts reported through the
  progress updates of the read loop add up to exactly N: whenever the repository
  identifier passes the check and the file exists and can be opened, the amounts given to
  \<^verbatim>\<open>pbar.update\<close> sum to the length of the file's content.
\<close>

theorem progress_updates_sum_to_file_size:
  assumes "passes_repo_check (REPO_NAME cfg)" and "fs w p = Some fe" and "readable fe"
  shows "sum_list (progress_updates (fst (upload_with_real_progress cfg w p g m)))
           = length (content fe)"
  using upload_progress(1) [OF assms] by (simp add: bytes_read_def)

theorem progress_updates_sum_to_file_size_witness:
  "passes_repo_check (REPO_NAME (test_config ''octo/demo''))
   \<and> fs (test_world [1, 2, 3, 4, 5] None) ''data.bin''
       = Some \<lparr>st_size = 5, readable = True, content = [1, 2, 3, 4, 5]\<rparr>
   \<and> sum_list (progress_updates (fst (upload_with_real_progress (test_config ''octo/demo'')
         (test_world [1, 2, 3, 4, 5] None) ''data.bin'' ''docs/data.bin'' ''add data''))) = 5"
  using progress_updates_sum_to_file_size [of "test_config ''octo/demo''"
      "test_world [1, 2, 3, 4, 5] None" "''data.bin''"
      "\<lparr>st_size = 5, readable = True, content = [1, 2, 3, 4, 5]\<rparr>" "''docs/data.bin''" "''add data''"]
  by simp

text \<open>
  Claim C5. A configuration error (the ValueError of line 16) or an I/O error (the OSError
  of a missing or unreadable file) is raised strictly before any network attempt: whenever
  an invocation ends in either error, its trace holds no PUT request.
\<close>

theorem errors_before_network:
  assumes "config_or_io_error (snd (upload_with_real_progress cfg w p g m))"
  shows "put_requests (fst (upload_with_real_progress cfg w p g m)) = []"
proof (cases "passes_repo_check (REPO_NAME cfg)")
  case False
  then show ?thesis by (simp add: upload_rejected)
next
  case True
  show ?thesis
  proof (cases "fs w p")
    case None
    with True show ?thesis by (simp add: upload_missing_file)
  next
    case (Some fe)
    show ?thesis
    proof (cases "readable fe")
      case False
      with True Some show ?thesis by (simp add: upload_unreadable_file)
    next
      case readable: True
      from assms upload_reaches_network [OF True Some readable, of g m]
      show ?thesis by (simp split: option.splits)
    qed
  qed
qed

theorem errors_before_network_witness:
  "config_or_io_error (snd (upload_with_real_progress (test_config ''octo/demo'')
       (test_world [] None) ''gone.bin'' ''docs/data.bin'' ''add data''))
   \<and> put_requests (fst (upload_with_real_progress (test_config ''octo/demo'')
       (test_world [] None) ''gone.bin'' ''docs/data.bin'' ''add data'')) = []
   \<and> config_or_io_error (snd (upload_with_real_progress (test_config ''demo'')
       (test_world [] None) ''data.bin'' ''docs/data.bin'' ''add data''))
   \<and> put_requests (fst (upload_with_real_progress (test_config ''demo'')
       (test_world [] None) ''data.bin'' ''docs/data.bin'' ''add data'')) = []"
proof -
  have missing: "config_or_io_error (snd (upload_with_real_progress (test_config ''octo/demo'')
       (test_world [] None) ''gone.bin'' ''docs/data.bin'' ''add data''))"
    by (simp add: upload_missing_file)
  have "\<not> passes_repo_check (REPO_NAME (test_config ''demo''))"
    by (simp add: test_config_def passes_repo_check_def)
  then have rejected: "config_or_io_error (snd (upload_with_real_progress (test_config ''demo'')
       (test_world [] None) ''data.bin'' ''docs/data.bin'' ''add data''))"
    by (simp add: upload_rejected)
  from missing rejected show ?thesis
    using errors_before_network by blast
qed

text \<open>
  Claim C6. For a zero-byte input file the upload issues exactly one HTTP PUT request,
  whose body carries an empty content payload, and reports success when the response
  status is 201.
\<close>

theorem zero_byte_file:
  assumes "passes_repo_check (REPO_NAME cfg)" and "fs w p = Some fe" and "readable fe"
    and "content fe = []"
  shows "\<exists>req. put_requests (fst (upload_with_real_progress cfg w p g m)) = [req]
           \<and> content_field req = Some []
           \<and> (\<forall>resp. net w req = Some resp \<and> status_code resp = 201 \<longrightarrow>
                 snd (upload_with_real_progress cfg w p g m) = Inr PyNone
                 \<and> printed (fst (upload_with_real_progress cfg w p g m)) =
                     [CHR 0x0A # ''Finalizing upload to GitHub (this may take a moment)...'',
                      [CHR 0xE2, CHR 0x9C, CHR 0x85] @ '' Upload successful!'']
                 \<and> [CHR 0xE2, CHR 0x9C, CHR 0x85] @ '' Upload successful!''
                     \<noteq> [CHR 0xE2, CHR 0x9D, CHR 0x8C] @ '' Upload failed: '' @ str_int (status_code resp)
                             @ '' - '' @ resp_text resp)"
proof -
  from upload_sent [OF assms(1-3), of g m]
  obtain req where req: "put_requests (fst (upload_with_real_progress cfg w p g m)) = [req]"
    and c: "content_field req = Some (concat (fst (read_loop 4096 (content fe) [] [])))"
    by blast
  from c assms(4) have empty: "content_field req = Some []" by simp
  have "snd (upload_with_real_progress cfg w p g m) = Inr PyNone
        \<and> printed (fst (upload_with_real_progress cfg w p g m)) =
            [CHR 0x0A # ''Finalizing upload to GitHub (this may take a moment)...'',
             [CHR 0xE2, CHR 0x9C, CHR 0x85] @ '' Upload successful!'']"
    if "net w req = Some resp" and "status_code resp = 201" for resp
    using upload_outcome(2) [OF assms(1-3) req that(1)] that(2) by (simp add: printed_lines)
  with req empty show ?thesis by auto
qed

theorem zero_byte_file_witness:
  "passes_repo_check (REPO_NAME (test_config ''octo/demo''))
   \<and> fs (test_world [] (Some \<lparr>status_code = 201, resp_text = ''Created''\<rparr>)) ''data.bin''
       = Some \<lparr>st_size = 0, readable = True, content = []\<rparr>
   \<and> map content_field (put_requests (fst (upload_with_real_progress (test_config ''octo/demo'')
         (test_world [] (Some \<lparr>status_code = 201, resp_text = ''Created''\<rparr>))
         ''data.bin'' ''docs/data.bin'' ''add data''))) = [Some []]
   \<and> snd (upload_with_real_progress (test_config ''octo/demo'')
         (test_world [] (Some \<lparr>status_code = 201, resp_text = ''Created''\<rparr>))
         ''data.bin'' ''docs/data.bin'' ''add data'') = Inr PyNone
   \<and> printed (fst (upload_with_real_progress (test_config ''octo/demo'')
         (test_world [] (Some \<lparr>status_code = 201, resp_text = ''Created''\<rparr>))
         ''data.bin'' ''docs/data.bin'' ''add data''))
       = [CHR 0x0A # ''Finalizing upload to GitHub (this may take a moment)...'',
          [CHR 0xE2, CHR 0x9C, CHR 0x85] @ '' Upload successful!'']"
  using zero_byte_file [of "test_config ''octo/demo''"
      "test_world [] (Some \<lparr>status_code = 201, resp_text = ''Created''\<rparr>)"
      "''data.bin''" "\<lparr>st_size = 0, readable = True, content = []\<rparr>"
      "''docs/data.bin''" "''add data''"]
  by auto

text \<open>
  Claim C7. Every invocation that reaches the network step issues exactly one HTTP PUT
  request, whatever the response and also when the transport fails; there is no retry.
  An invocation that ends in a configuration or I/O error issues none.
\<close>

theorem exactly_one_put:
  "length (put_requests (fst (upload_with_real_progress cfg w p g m))) =
     (if config_or_io_error (snd (upload_with_real_progress cfg w p g m)) then 0 else 1)"
proof (cases "passes_repo_check (REPO_NAME cfg)")
  case False
  then show ?thesis by (simp add: upload_rejected)
next
  case True
  show ?thesis
  proof (cases "fs w p")
    case None
    with True show ?thesis by (simp add: upload_missing_file)
  next
    case (Some fe)
    show ?thesis
    proof (cases "readable fe")
      case False
      with True Some show ?thesis by (simp add: upload_unreadable_file)
    next
      case readable: True
      from upload_reaches_network [OF True Some readable, of g m]
      show ?thesis by (simp split: option.splits)
    qed
  qed
qed

theorem exactly_one_put_witness:
  "\<not> config_or_io_error (snd (upload_with_real_progress (test_config ''octo/demo'')
        (test_world [1, 2, 3] (Some \<lparr>status_code = 500, resp_text = ''Server Error''\<rparr>))
        ''data.bin'' ''docs/data.bin'' ''add data''))
   \<and> length (put_requests (fst (upload_with_real_progress (test_config ''octo/demo'')
        (test_world [1, 2, 3] (Some \<lparr>status_code = 500, resp_text = ''Server Error''\<rparr>))
        ''data.bin'' ''docs/data.bin'' ''add data''))) = 1
   \<and> config_or_io_error (snd (upload_with_real_progress (test_config ''octo/demo'')
        (test_world [1, 2, 3] None) ''gone.bin'' ''docs/data.bin'' ''add data''))
   \<and> length (put_requests (fst (upload_with_real_progress (test_config ''octo/demo'')
        (test_world [1, 2, 3] None) ''gone.bin'' ''docs/data.bin'' ''add data''))) = 0"
proof -
  have a: "\<not> config_or_io_error (snd (upload_with_real_progress (test_config ''octo/demo'')
        (test_world [1, 2, 3] (Some \<lparr>status_code = 500, resp_text = ''Server Error''\<rparr>))
        ''data.bin'' ''docs/data.bin'' ''add data''))"
    using upload_reaches_network [of "test_config ''octo/demo''"
      "test_world [1, 2, 3] (Some \<lparr>status_code = 500, resp_text = ''Server Error''\<rparr>)"
      "''data.bin''" "\<lparr>st_size = 3, readable = True, content = [1, 2, 3]\<rparr>"
      "''docs/data.bin''" "''add data''"]
    by simp
  have b: "config_or_io_error (snd (upload_with_real_progress (test_config ''octo/demo'')
        (test_world [1, 2, 3] None) ''gone.bin'' ''docs/data.bin'' ''add data''))"
    by (simp add: upload_missing_file)
  from a b show ?thesis
    by (simp only: exactly_one_put if_True if_False simp_thms)
qed

text \<open>
  Claim C8. Throughout the read loop, when the size of the file does not change between
  \<^verbatim>\<open>os.path.getsize\<close> and the reads, the cumulative count of bytes read stays at or
  below the total the progress bar was created with at every observation point (after
  any number \<open>k\<close> of events), and it never decreases from one point to a later one.
\<close>

theorem bytes_read_bounded_and_monotone:
  assumes "fs w p = Some fe" and "st_size fe = length (content fe)"
  shows "(\<forall>total \<in> set (progress_totals (fst (upload_with_real_progress cfg w p g m))).
            bytes_read (take k (fst (upload_with_real_progress cfg w p g m))) \<le> total)
         \<and> (j \<le> k \<longrightarrow>
              bytes_read (take j (fst (upload_with_real_progress cfg w p g m)))
                \<le> bytes_read (take k (fst (upload_with_real_progress cfg w p g m))))"
proof -
  let ?tr = "fst (upload_with_real_progress cfg w p g m)"
  have "bytes_read (take k ?tr) \<le> bytes_read ?tr" by (rule bytes_read_take_le)
  also have "\<dots> \<le> length (content fe)" by (rule upload_bytes_read_le [OF assms(1)])
  finally have "bytes_read (take k ?tr) \<le> st_size fe" by (simp add: assms(2))
  moreover have "set (progress_totals ?tr) \<subseteq> {st_size fe}"
    by (rule upload_progress_totals [OF assms(1)])
  ultimately show ?thesis using bytes_read_mono [of j k ?tr] by auto
qed

theorem bytes_read_bounded_and_monotone_witness:
  "fs (test_world [1, 2, 3] None) ''data.bin''
       = Some \<lparr>st_size = 3, readable = True, content = [1, 2, 3]\<rparr>
   \<and> st_size \<lparr>st_size = 3, readable = True, content = [1, 2, 3 :: byte]\<rparr>
       = length (content \<lparr>st_size = 3, readable = True, content = [1, 2, 3 :: byte]\<rparr>)
   \<and> progress_totals (fst (upload_with_real_progress (test_config ''octo/demo'')
         (test_world [1, 2, 3] None) ''data.bin'' ''docs/data.bin'' ''add data'')) = [3]
   \<and> bytes_read (take 5 (fst (upload_with_real_progress (test_config ''octo/demo'')
         (test_world [1, 2, 3] None) ''data.bin'' ''docs/data.bin'' ''add data''))) \<le> 3
   \<and> (4::nat) \<le> 5
   \<and> bytes_read (take 4 (fst (upload_with_real_progress (test_config ''octo/demo'')
         (test_world [1, 2, 3] None) ''data.bin'' ''docs/data.bin'' ''add data'')))
       \<le> bytes_read (take 5 (fst (upload_with_real_progress (test_config ''octo/demo'')
         (test_world [1, 2, 3] None) ''data.bin'' ''docs/data.bin'' ''add data'')))"
proof -
  have totals: "progress_totals (fst (upload_with_real_progress (test_config ''octo/demo'')
         (test_world [1, 2, 3] None) ''data.bin'' ''docs/data.bin'' ''add data'')) = [3]"
    using upload_progress(2) [of "test_config ''octo/demo''" "test_world [1, 2, 3] None"
        "''data.bin''" "\<lparr>st_size = 3, readable = True, content = [1, 2, 3]\<rparr>"
        "''docs/data.bin''" "''add data''"]
    by simp
  show ?thesis
    using bytes_read_bounded_and_monotone [of "test_world [1, 2, 3] None" "''data.bin''"
        "\<lparr>st_size = 3, readable = True, content = [1, 2, 3]\<rparr>"
        "test_config ''octo/demo''" "''docs/data.bin''" "''add data''" 5 4]
    by (simp add: totals)
qed

text \<open>
  Claim C9 says that the upload returns the Success/Failure variant to its caller. It
  does not: the function has no return statement, so an invocation that completes returns
  \<^verbatim>\<open>None\<close> on a 201 answer and on a 403 answer alike.
\<close>

theorem return_value_carries_no_result:
  "snd (upload_with_real_progress (test_config ''octo/demo'')
         (test_world [1, 2, 3] (Some \<lparr>status_code = 201, resp_text = ''Created''\<rparr>))
         ''data.bin'' ''docs/data.bin'' ''add data'') = Inr PyNone
   \<and> snd (upload_with_real_progress (test_config ''octo/demo'')
         (test_world [1, 2, 3] (Some \<lparr>status_code = 403, resp_text = ''Bad credentials''\<rparr>))
         ''data.bin'' ''docs/data.bin'' ''add data'') = Inr PyNone"
  using upload_reaches_network [of "test_config ''octo/demo''"
      "test_world [1, 2, 3] (Some \<lparr>status_code = 201, resp_text = ''Created''\<rparr>)"
      "''data.bin''" "\<lparr>st_size = 3, readable = True, content = [1, 2, 3]\<rparr>"
      "''docs/data.bin''" "''add data''"]
    upload_reaches_network [of "test_config ''octo/demo''"
      "test_world [1, 2, 3] (Some \<lparr>status_code = 403, resp_text = ''Bad credentials''\<rparr>)"
      "''data.bin''" "\<lparr>st_size = 3, readable = True, content = [1, 2, 3]\<rparr>"
      "''docs/data.bin''" "''add data''"]
  by simp

text \<open>
  Claim C9, amended. Every invocation that completes returns no value (\<^verbatim>\<open>None\<close>);
  it has sent one request, that request was answered, and the outcome is reported only as
  the last line printed: the success line for status 200 or 201, otherwise the failure
  line with the status code and the response text.
\<close>

theorem returns_none_and_prints_outcome:
  assumes "snd (upload_with_real_progress cfg w p g m) = Inr v"
  shows "v = PyNone
         \<and> (\<exists>req resp. put_requests (fst (upload_with_real_progress cfg w p g m)) = [req]
               \<and> net w req = Some resp
               \<and> printed (fst (upload_with_real_progress cfg w p g m)) =
                   [CHR 0x0A # ''Finalizing upload to GitHub (this may take a moment)...'',
                    if status_code resp = 200 \<or> status_code resp = 201
                    then [CHR 0xE2, CHR 0x9C, CHR 0x85] @ '' Upload successful!''
                    else [CHR 0xE2, CHR 0x9D, CHR 0x8C] @ '' Upload failed: '' @ str_int (status_code resp)
                             @ '' - '' @ resp_text resp]
               \<and> [CHR 0xE2, CHR 0x9C, CHR 0x85] @ '' Upload successful!''
                   \<noteq> [CHR 0xE2, CHR 0x9D, CHR 0x8C] @ '' Upload failed: '' @ str_int (status_code resp)
                             @ '' - '' @ resp_text resp)"
proof (cases "passes_repo_check (REPO_NAME cfg)")
  case False
  with assms show ?thesis by (simp add: upload_rejected)
next
  case True
  show ?thesis
  proof (cases "fs w p")
    case None
    with True assms show ?thesis by (simp add: upload_missing_file)
  next
    case (Some fe)
    show ?thesis
    proof (cases "readable fe")
      case False
      with True Some assms show ?thesis by (simp add: upload_unreadable_file)
    next
      case readable: True
      from upload_sent [OF True Some readable, of g m]
      obtain req where req: "put_requests (fst (upload_with_real_progress cfg w p g m)) = [req]"
        by blast
      show ?thesis
      proof (cases "net w req")
        case None
        with upload_outcome(1) [OF True Some readable req] assms show ?thesis by simp
      next
        case (Some resp)
        with upload_outcome(2) [OF True \<open>fs w p = Some fe\<close> readable req] req assms
        show ?thesis by (auto simp add: printed_lines)
      qed
    qed
  qed
qed

theorem returns_none_and_prints_outcome_witness:
  "snd (upload_with_real_progress (test_config ''octo/demo'')
         (test_world [1, 2, 3] (Some \<lparr>status_code = 403, resp_text = ''Bad credentials''\<rparr>))
         ''data.bin'' ''docs/data.bin'' ''add data'') = Inr PyNone
   \<and> printed (fst (upload_with_real_progress (test_config ''octo/demo'')
         (test_world [1, 2, 3] (Some \<lparr>status_code = 403, resp_text = ''Bad credentials''\<rparr>))
         ''data.bin'' ''docs/data.bin'' ''add data''))
       = [CHR 0x0A # ''Finalizing upload to GitHub (this may take a moment)...'',
          [CHR 0xE2, CHR 0x9D, CHR 0x8C] @ '' Upload failed: 403 - Bad credentials'']
   \<and> snd (upload_with_real_progress (test_config ''octo/demo'')
         (test_world [1, 2, 3] (Some \<lparr>status_code = 201, resp_text = ''Created''\<rparr>))
         ''data.bin'' ''docs/data.bin'' ''add data'') = Inr PyNone
   \<and> printed (fst (upload_with_real_progress (test_config ''octo/demo'')
         (test_world [1, 2, 3] (Some \<lparr>status_code = 201, resp_text = ''Created''\<rparr>))
         ''data.bin'' ''docs/data.bin'' ''add data''))
       = [CHR 0x0A # ''Finalizing upload to GitHub (this may take a moment)...'',
          [CHR 0xE2, CHR 0x9C, CHR 0x85] @ '' Upload successful!'']"
proof -
  have refused: "snd (upload_with_real_progress (test_config ''octo/demo'')
         (test_world [1, 2, 3] (Some \<lparr>status_code = 403, resp_text = ''Bad credentials''\<rparr>))
         ''data.bin'' ''docs/data.bin'' ''add data'') = Inr PyNone"
    using upload_reaches_network [of "test_config ''octo/demo''"
      "test_world [1, 2, 3] (Some \<lparr>status_code = 403, resp_text = ''Bad credentials''\<rparr>)"
      "''data.bin''" "\<lparr>st_size = 3, readable = True, content = [1, 2, 3]\<rparr>"
      "''docs/data.bin''" "''add data''"]
    by simp
  have created: "snd (upload_with_real_progress (test_config ''octo/demo'')
         (test_world [1, 2, 3] (Some \<lparr>status_code = 201, resp_text = ''Created''\<rparr>))
         ''data.bin'' ''docs/data.bin'' ''add data'') = Inr PyNone"
    using upload_reaches_network [of "test_config ''octo/demo''"
      "test_world [1, 2, 3] (Some \<lparr>status_code = 201, resp_text = ''Created''\<rparr>)"
      "''data.bin''" "\<lparr>st_size = 3, readable = True, content = [1, 2, 3]\<rparr>"
      "''docs/data.bin''" "''add data''"]
    by simp
  from returns_none_and_prints_outcome [OF refused] returns_none_and_prints_outcome [OF created]
    refused created
  show ?thesis by (auto simp add: str_int_examples)
qed



end
